theory Spec2Isabelle
  imports Main "HOL-Library.Sublist"
begin

section \<open>Strings of the program\<close>

text \<open>
  A JavaScript string is a sequence of UTF-16 code units and \<open>.length\<close> counts them.
  It is modelled as a \<open>string\<close> whose elements stand for the code units; the functions
  below only compare elements and count them, so nothing depends on the alphabet.
\<close>

definition startsWith :: "string \<Rightarrow> string \<Rightarrow> bool" where
  \<comment> \<open>\<open>s.startsWith(p)\<close>\<close>
  "startsWith s p = (take (length p) s = p)"

fun includes_str :: "string \<Rightarrow> string \<Rightarrow> bool" where
  \<comment> \<open>\<open>s.includes(sub)\<close>: \<open>sub\<close> occurs at some position of \<open>s\<close>\<close>
  "includes_str [] sub = (sub = [])"
| "includes_str (c # cs) sub = (startsWith (c # cs) sub \<or> includes_str cs sub)"

section \<open>Schema validators of the repair form (NewRepairRequest.tsx, formSchema)\<close>

text \<open>
  The schema library is a dependency of the repository. Its three constructs used by
  \<open>formSchema\<close> are modelled by what they compute: \<open>z.string().min(n, m).max(k, m')\<close>
  reports the message of each bound that the length of the input violates, and
  \<open>z.enum(values, {required_error})\<close> reports \<open>required_error\<close> on a missing value and an
  invalid-value issue on a string that is none of \<open>values\<close>. A field is accepted when
  no issue is reported.
\<close>

datatype zod_check = Min nat string | Max nat string

fun run_check :: "zod_check \<Rightarrow> string \<Rightarrow> string list" where
  "run_check (Min n msg) s = (if length s < n then [msg] else [])"
| "run_check (Max n msg) s = (if length s > n then [msg] else [])"

definition zod_string :: "zod_check list \<Rightarrow> string \<Rightarrow> string list" where
  "zod_string checks s = concat (map (\<lambda>c. run_check c s) checks)"

definition zod_enum :: "string list \<Rightarrow> string \<Rightarrow> string option \<Rightarrow> string list" where
  "zod_enum values required_error v =
     (case v of
        None \<Rightarrow> [required_error]
      | Some s \<Rightarrow> (if s \<in> set values then [] else [''Invalid enum value'']))"

definition deviceTypes :: "string list" where
  "deviceTypes =
     [''Vacuum cleaner'', ''Coffee machine'', ''TV'', ''Radio'', ''Lighting'',
      ''Fume hood'', ''Laptop'', ''Smartphone'', ''Other'']"

definition deviceType_schema :: "string option \<Rightarrow> string list" where
  "deviceType_schema = zod_enum deviceTypes ''Please select a device type''"

definition description_schema :: "string \<Rightarrow> string list" where
  "description_schema =
     zod_string [Min 20 ''Description must be at least 20 characters'',
                 Max 500 ''Description cannot be longer than 500 characters'']"

definition deviceType_accepts :: "string \<Rightarrow> bool" where
  "deviceType_accepts s = (deviceType_schema (Some s) = [])"

definition description_accepts :: "string \<Rightarrow> bool" where
  "description_accepts s = (description_schema s = [])"

section \<open>Notifications, navigation and remote results\<close>

datatype variant = Default | Destructive

record toast =
  toast_title :: string
  toast_description :: string
  toast_variant :: "variant option"

datatype navigation =
    Navigate string       \<comment> \<open>\<open>navigate(route)\<close> of the router\<close>
  | LocationHref string   \<comment> \<open>\<open>window.location.href = route\<close>\<close>

text \<open>
  What every form component of the repository holds: the notifications it has shown
  (oldest first), the navigations it has asked for, and its \<open>isSubmitting\<close> flag, which
  disables the submit button while it is set.
\<close>

record view =
  toasts :: "toast list"
  navigation :: "navigation list"
  isSubmitting :: bool

definition show_toast :: "toast \<Rightarrow> 'a view_scheme \<Rightarrow> 'a view_scheme" where
  "show_toast t v = v\<lparr>toasts := toasts v @ [t]\<rparr>"

definition navigate :: "string \<Rightarrow> 'a view_scheme \<Rightarrow> 'a view_scheme" where
  "navigate route v = v\<lparr>navigation := navigation v @ [Navigate route]\<rparr>"

definition set_location_href :: "string \<Rightarrow> 'a view_scheme \<Rightarrow> 'a view_scheme" where
  "set_location_href route v = v\<lparr>navigation := navigation v @ [LocationHref route]\<rparr>"

text \<open>
  An awaited call either resolves to a value or rejects; a rejection reaches the
  enclosing \<open>catch\<close> like a \<open>throw\<close>. The \<open>catch\<close> blocks only ask whether the thrown
  value is an \<open>Error\<close> and read its message.
\<close>

datatype thrown = ErrorObject string | OtherValue

datatype 'a outcome = Resolved 'a | Rejected thrown

text \<open>The \<open>{data, error}\<close> pair of a single-row insert: the row's key, or an error with its message.\<close>

datatype single_response = Data string | PostgrestError string

section \<open>The repair-request page (NewRepairRequest.tsx)\<close>

record File =
  file_name :: string
  file_type :: string
  file_size :: nat

text \<open>
  \<open>URL.createObjectURL\<close> hands out a fresh URL at each call and remembers the file behind
  it until \<open>URL.revokeObjectURL\<close>. A URL is represented by the serial number of its
  creation.
\<close>

type_synonym url = nat

record form_values =
  deviceType :: string
  brand :: "string option"
  model :: "string option"
  description :: string

record product_row =
  p_user_id :: string
  p_type :: string
  p_brand :: "string option"
  p_model :: "string option"
  p_status :: string

record repair_row =
  r_user_id :: string
  r_product_id :: string
  r_description :: string
  r_status :: string

datatype request =
    GetUser
  | InsertProduct product_row
  | InsertRepairRequest repair_row

text \<open>
  The remote backend as the page sees it: what \<open>auth.getUser()\<close> answers (the user's id,
  or no user) and what the two inserts answer for a given row.
\<close>

record backend =
  auth_getUser :: "string option outcome"
  insert_products :: "product_row \<Rightarrow> single_response outcome"
  insert_repair_requests :: "repair_row \<Rightarrow> single_response outcome"

record page = view +
  images :: "File list"
  imagePreviewUrls :: "url list"
  object_urls :: "url \<rightharpoonup> File"
  next_url :: url
  requests :: "request list"
  sessionStorage :: "string \<rightharpoonup> string"

definition initial_page :: page where
  "initial_page =
     \<lparr>toasts = [], navigation = [], isSubmitting = False,
      images = [], imagePreviewUrls = [], object_urls = Map.empty, next_url = 0,
      requests = [], sessionStorage = Map.empty\<rparr>"

subsection \<open>Image attachments\<close>

definition createObjectURL :: "File \<Rightarrow> page \<Rightarrow> url \<times> page" where
  "createObjectURL f p =
     (next_url p, p\<lparr>object_urls := (object_urls p)(next_url p \<mapsto> f), next_url := Suc (next_url p)\<rparr>)"

definition revokeObjectURL :: "url option \<Rightarrow> page \<Rightarrow> page" where
  \<comment> \<open>the argument is \<open>None\<close> when the array read was out of range (\<open>undefined\<close>)\<close>
  "revokeObjectURL u p =
     (case u of None \<Rightarrow> p | Some v \<Rightarrow> p\<lparr>object_urls := (object_urls p)(v := None)\<rparr>)"

definition match_image :: "string \<Rightarrow> bool" where
  \<comment> \<open>\<open>type.match('image.*')\<close>: the string argument becomes the regular expression
      \<open>image.*\<close>, which is not anchored and whose \<open>.*\<close> may match nothing, so the
      match succeeds exactly when \<open>image\<close> occurs somewhere in the type\<close>
  "match_image t = includes_str t ''image''"

definition invalid_type_toast :: toast where
  "invalid_type_toast =
     \<lparr>toast_title = ''Invalid file type'',
      toast_description = ''Please upload only image files'',
      toast_variant = Some Destructive\<rparr>"

definition too_large_toast :: toast where
  "too_large_toast =
     \<lparr>toast_title = ''File too large'',
      toast_description = ''Please upload images smaller than 5MB'',
      toast_variant = Some Destructive\<rparr>"

text \<open>
  The \<open>for\<close> loop of \<open>handleImageChange\<close> over the offered files, with its two local
  arrays \<open>newImages\<close> and \<open>newImagePreviewUrls\<close>.
  The handler's \<open>e.preventDefault()\<close> and its final reset of the input's value do not
  touch the state of the page and are left out.
\<close>

fun image_loop :: "File list \<Rightarrow> File list \<Rightarrow> url list \<Rightarrow> page \<Rightarrow> File list \<times> url list \<times> page" where
  "image_loop [] newImages newImagePreviewUrls p = (newImages, newImagePreviewUrls, p)"
| "image_loop (f # files) newImages newImagePreviewUrls p =
     (if \<not> match_image (file_type f) then
        image_loop files newImages newImagePreviewUrls (show_toast invalid_type_toast p)
      else if file_size f > 5 * 1024 * 1024 then
        image_loop files newImages newImagePreviewUrls (show_toast too_large_toast p)
      else
        (case createObjectURL f p of
           (u, p') \<Rightarrow> image_loop files (newImages @ [f]) (newImagePreviewUrls @ [u]) p'))"

definition handleImageChange :: "File list option \<Rightarrow> page \<Rightarrow> page" where
  \<comment> \<open>the argument is \<open>e.target.files\<close>, \<open>None\<close> when it is null\<close>
  "handleImageChange files p =
     (case files of
        None \<Rightarrow> p
      | Some fs \<Rightarrow>
          (case image_loop fs (images p) (imagePreviewUrls p) p of
             (newImages, newImagePreviewUrls, p') \<Rightarrow>
               p'\<lparr>images := newImages, imagePreviewUrls := newImagePreviewUrls\<rparr>))"

definition at_index :: "'a list \<Rightarrow> int \<Rightarrow> 'a option" where
  \<comment> \<open>\<open>xs[index]\<close>, which is \<open>undefined\<close> outside the array\<close>
  "at_index xs index =
     (if 0 \<le> index \<and> index < int (length xs) then Some (xs ! nat index) else None)"

definition splice1 :: "int \<Rightarrow> 'a list \<Rightarrow> 'a list" where
  \<comment> \<open>the array after \<open>xs.splice(index, 1)\<close>: a negative index counts from the end,
      and nothing is deleted at or beyond the end\<close>
  "splice1 index xs =
     (let len = int (length xs);
          start = (if index < 0 then max (len + index) 0 else min index len)
      in take (nat start) xs @ drop (Suc (nat start)) xs)"

definition removeImage :: "int \<Rightarrow> page \<Rightarrow> page" where
  "removeImage index p =
     (let newImages = images p;
          newImagePreviewUrls = imagePreviewUrls p;
          p' = revokeObjectURL (at_index newImagePreviewUrls index) p
      in p'\<lparr>images := splice1 index newImages,
             imagePreviewUrls := splice1 index newImagePreviewUrls\<rparr>)"

subsection \<open>Submission\<close>

definition or_null :: "string option \<Rightarrow> string option" where
  \<comment> \<open>\<open>v || null\<close>: a missing or empty string becomes null\<close>
  "or_null v = (case v of None \<Rightarrow> None | Some s \<Rightarrow> (if s = [] then None else Some s))"

definition new_product :: "string \<Rightarrow> form_values \<Rightarrow> product_row" where
  "new_product user_id values =
     \<lparr>p_user_id = user_id, p_type = deviceType values, p_brand = or_null (brand values),
      p_model = or_null (model values), p_status = ''broken''\<rparr>"

definition new_repair_request :: "string \<Rightarrow> string \<Rightarrow> form_values \<Rightarrow> repair_row" where
  "new_repair_request user_id product_id values =
     \<lparr>r_user_id = user_id, r_product_id = product_id, r_description = description values,
      r_status = ''created''\<rparr>"

definition issue :: "request \<Rightarrow> page \<Rightarrow> page" where
  "issue r p = p\<lparr>requests := requests p @ [r]\<rparr>"

definition setItem :: "string \<Rightarrow> string \<Rightarrow> page \<Rightarrow> page" where
  "setItem k v p = p\<lparr>sessionStorage := (sessionStorage p)(k \<mapsto> v)\<rparr>"

definition auth_required_toast :: toast where
  "auth_required_toast =
     \<lparr>toast_title = ''Authentication required'',
      toast_description = ''Please sign in to submit a repair request.'',
      toast_variant = Some Destructive\<rparr>"

definition created_toast :: toast where
  "created_toast =
     \<lparr>toast_title = ''Repair request created'',
      toast_description = ''Now let's select available timeslots.'',
      toast_variant = Some Default\<rparr>"

definition submission_failed_toast :: "thrown \<Rightarrow> toast" where
  "submission_failed_toast e =
     \<lparr>toast_title = ''Submission failed'',
      toast_description =
        (case e of
           ErrorObject message \<Rightarrow> message
         | OtherValue \<Rightarrow> ''There was a problem submitting your repair request. Please try again.''),
      toast_variant = Some Destructive\<rparr>"

text \<open>
  The \<open>try\<close> block of \<open>onSubmit\<close>. It returns the page as the block leaves it, together
  with the value thrown when it is left by an exception.
  Console output is left out; showing a notification, writing to the session storage and
  navigating do not throw.
\<close>

definition try_block :: "backend \<Rightarrow> form_values \<Rightarrow> page \<Rightarrow> page \<times> thrown option" where
  "try_block be values p =
     (let p1 = issue GetUser p in
      case auth_getUser be of
        Rejected e \<Rightarrow> (p1, Some e)
      | Resolved None \<Rightarrow> ((show_toast auth_required_toast p1)\<lparr>isSubmitting := False\<rparr>, None)
      | Resolved (Some user_id) \<Rightarrow>
          (let row = new_product user_id values;
               p2 = issue (InsertProduct row) p1 in
           case insert_products be row of
             Rejected e \<Rightarrow> (p2, Some e)
           | Resolved (PostgrestError message) \<Rightarrow>
               (p2, Some (ErrorObject (''Failed to create product: '' @ message)))
           | Resolved (Data product_id) \<Rightarrow>
               (let rrow = new_repair_request user_id product_id values;
                    p3 = issue (InsertRepairRequest rrow) p2 in
                case insert_repair_requests be rrow of
                  Rejected e \<Rightarrow> (p3, Some e)
                | Resolved (PostgrestError message) \<Rightarrow>
                    (p3, Some (ErrorObject ''Failed to create repair request''))
                | Resolved (Data repair_id) \<Rightarrow>
                    (navigate ''/repair-request-timeslots''
                       (show_toast created_toast (setItem ''repairRequestId'' repair_id p3)),
                     None))))"

definition onSubmit :: "backend \<Rightarrow> form_values \<Rightarrow> page \<Rightarrow> page" where
  "onSubmit be values p =
     (case try_block be values (p\<lparr>isSubmitting := True\<rparr>) of
        (p', thrown) \<Rightarrow>
          (let p'' = (case thrown of
                        None \<Rightarrow> p'
                      | Some e \<Rightarrow> show_toast (submission_failed_toast e) p')
           in p''\<lparr>isSubmitting := False\<rparr>))"

definition issued :: "backend \<Rightarrow> form_values \<Rightarrow> page \<Rightarrow> request list" where
  \<comment> \<open>the remote calls that one run of \<open>onSubmit\<close> adds to the log\<close>
  "issued be values p = drop (length (requests p)) (requests (onSubmit be values p))"

section \<open>The authentication modal (AuthModal.tsx) and the login form\<close>

datatype modal_type = Repair | Help | Login

datatype AuthStep = StepLogin | StepRegister | StepVerify

record props =
  isOpen :: bool
  type :: modal_type

text \<open>
  The modal's state: the step and the e-mail address of its two \<open>useState\<close> cells, the
  dependency values \<open>[isOpen, type]\<close> that its effect saw at the last render, and the
  number of calls of the \<open>onClose\<close> callback.
\<close>

record modal = view +
  step :: AuthStep
  email :: string
  effect_deps :: "bool \<times> modal_type"
  onClose_calls :: nat

definition initial_step :: "modal_type \<Rightarrow> AuthStep" where
  \<comment> \<open>\<open>type === "login" ? "login" : "register"\<close>\<close>
  "initial_step t = (if t = Login then StepLogin else StepRegister)"

definition reset_effect :: "props \<Rightarrow> modal \<Rightarrow> modal" where
  \<comment> \<open>the body of the \<open>useEffect\<close>\<close>
  "reset_effect pr m = (if isOpen pr then m\<lparr>step := initial_step (type pr)\<rparr> else m)"

definition mount :: "props \<Rightarrow> modal" where
  \<comment> \<open>the first render: the initial values of \<open>useState\<close>, then the effect\<close>
  "mount pr =
     reset_effect pr
       \<lparr>toasts = [], navigation = [], isSubmitting = False,
        step = initial_step (type pr), email = [], effect_deps = (isOpen pr, type pr),
        onClose_calls = 0\<rparr>"

definition rerender :: "props \<Rightarrow> modal \<Rightarrow> modal" where
  \<comment> \<open>a later render: the effect runs when one of its dependencies has changed\<close>
  "rerender pr m =
     (if (isOpen pr, type pr) \<noteq> effect_deps m
      then reset_effect pr (m\<lparr>effect_deps := (isOpen pr, type pr)\<rparr>)
      else m)"

definition handleLoginClick :: "modal \<Rightarrow> modal" where
  "handleLoginClick m = m\<lparr>step := StepLogin\<rparr>"

definition handleRegisterClick :: "modal \<Rightarrow> modal" where
  "handleRegisterClick m = m\<lparr>step := StepRegister\<rparr>"

definition handleRegisterSuccess :: "string \<Rightarrow> modal \<Rightarrow> modal" where
  "handleRegisterSuccess userEmail m =
     show_toast
       \<lparr>toast_title = ''Registration successful'',
        toast_description = ''Please verify your email to continue.'',
        toast_variant = None\<rparr>
       (m\<lparr>email := userEmail, step := StepVerify\<rparr>)"

text \<open>What \<open>auth.getSession()\<close> answers: an error, no session, or a session.\<close>

datatype getSession_result = SessionError string | NoSession | HasSession

definition onClose :: "modal \<Rightarrow> modal" where
  "onClose m = m\<lparr>onClose_calls := Suc (onClose_calls m)\<rparr>"

definition redirect :: "string \<Rightarrow> modal_type \<Rightarrow> modal \<Rightarrow> modal" where
  \<comment> \<open>the closing \<open>if\<close> chain of both success handlers\<close>
  "redirect currentPath t m =
     (if startsWith currentPath ''/'' \<and> length currentPath > 1
         \<and> \<not> includes_str currentPath ''/dashboard''
      then m
      else if t = Repair then set_location_href ''/new-repair-request'' m
      else if t = Help then set_location_href ''/repair-requests'' m
      else m)"

definition handleLoginSuccess :: "getSession_result \<Rightarrow> string \<Rightarrow> modal_type \<Rightarrow> modal \<Rightarrow> modal" where
  "handleLoginSuccess r currentPath t m =
     (case r of
        SessionError e \<Rightarrow>
          show_toast
            \<lparr>toast_title = ''Authentication error'',
             toast_description = ''There was a problem with your login. Please try again.'',
             toast_variant = Some Destructive\<rparr> m
      | NoSession \<Rightarrow>
          show_toast
            \<lparr>toast_title = ''Login failed'',
             toast_description = ''No session found. Please try again.'',
             toast_variant = Some Destructive\<rparr> m
      | HasSession \<Rightarrow>
          redirect currentPath t
            (onClose
               (show_toast
                  \<lparr>toast_title = ''Login successful'',
                   toast_description = ''You have been logged in successfully.'',
                   toast_variant = None\<rparr> m)))"

definition handleVerificationSuccess :: "getSession_result \<Rightarrow> string \<Rightarrow> modal_type \<Rightarrow> modal \<Rightarrow> modal" where
  "handleVerificationSuccess r currentPath t m =
     (case r of
        SessionError e \<Rightarrow>
          show_toast
            \<lparr>toast_title = ''Verification error'',
             toast_description = ''There was a problem verifying your account. Please try again.'',
             toast_variant = Some Destructive\<rparr> m
      | NoSession \<Rightarrow>
          show_toast
            \<lparr>toast_title = ''Verification failed'',
             toast_description = ''No session found. Please try again.'',
             toast_variant = Some Destructive\<rparr> m
      | HasSession \<Rightarrow>
          redirect currentPath t
            (onClose
               (show_toast
                  \<lparr>toast_title = ''Verification successful'',
                   toast_description = ''Your email has been verified. You are now logged in.'',
                   toast_variant = None\<rparr> m)))"

text \<open>What \<open>auth.signInWithPassword\<close> answers: an error with its message, or the signed-in data.\<close>

datatype signIn_result = SignInError string | SignedIn

text \<open>
  \<open>onSubmit\<close> of the login form. The callback \<open>onLoginSuccess\<close> is an \<open>async\<close> function
  that the form calls without awaiting it: the callback runs up to its first \<open>await\<close>
  (the session request), the form goes on to its own \<open>navigate("/dashboard")\<close>, and the
  rest of the callback runs once the session request has answered. The parameter
  \<open>onLoginSuccess\<close> is that rest, and it closes over the path and the type of the render
  in which the form was submitted.
\<close>

definition LoginForm_onSubmit :: "signIn_result outcome \<Rightarrow> (modal \<Rightarrow> modal) \<Rightarrow> modal \<Rightarrow> modal" where
  "LoginForm_onSubmit r onLoginSuccess m =
     (let m1 = m\<lparr>isSubmitting := True\<rparr> in
      case r of
        Rejected e \<Rightarrow>
          (show_toast
             \<lparr>toast_title = ''Login failed'',
              toast_description = ''An unexpected error occurred. Please try again.'',
              toast_variant = Some Destructive\<rparr> m1)\<lparr>isSubmitting := False\<rparr>
      | Resolved (SignInError message) \<Rightarrow>
          (show_toast
             \<lparr>toast_title = ''Login failed'',
              toast_description =
                (if message = [] then ''Invalid email or password. Please try again.''
                 else message),
              toast_variant = Some Destructive\<rparr> m1)\<lparr>isSubmitting := False\<rparr>
      | Resolved SignedIn \<Rightarrow>
          (let m2 = show_toast
                      \<lparr>toast_title = ''Login successful'',
                       toast_description = ''Welcome back!'',
                       toast_variant = None\<rparr> m1;
               m3 = m2\<lparr>isSubmitting := False\<rparr>
           in onLoginSuccess (navigate ''/dashboard'' m3)))"

definition login :: "signIn_result outcome \<Rightarrow> getSession_result \<Rightarrow> string \<Rightarrow> modal_type \<Rightarrow> modal \<Rightarrow> modal" where
  \<comment> \<open>the login form as the modal renders it, with \<open>handleLoginSuccess\<close> as its callback\<close>
  "login r s currentPath t m = LoginForm_onSubmit r (handleLoginSuccess s currentPath t) m"

section \<open>Vocabulary of the properties\<close>

text \<open>A file passes the two checks of the loop; the notification a file gets when it does not.\<close>

definition passes_checks :: "File \<Rightarrow> bool" where
  "passes_checks f = (match_image (file_type f) \<and> \<not> file_size f > 5 * 1024 * 1024)"

definition rejection_toast :: "File \<Rightarrow> toast" where
  "rejection_toast f =
     (if \<not> match_image (file_type f) then invalid_type_toast else too_large_toast)"

text \<open>
  The two lists of the page agree: they have the same length, and the URL at each index
  is registered for the image at that index. The URLs of the list are pairwise
  different and were all handed out already.
\<close>

definition previews_match :: "page \<Rightarrow> bool" where
  "previews_match p =
     list_all2 (\<lambda>u f. object_urls p u = Some f) (imagePreviewUrls p) (images p)"

definition previews_fresh :: "page \<Rightarrow> bool" where
  "previews_fresh p =
     (distinct (imagePreviewUrls p) \<and> list_all (\<lambda>u. u < next_url p) (imagePreviewUrls p))"

text \<open>
  The pages that the handlers produce from the page as it is first rendered. Each
  handler runs on the state of the latest render.
\<close>

inductive reachable :: "page \<Rightarrow> bool" where
  start: "reachable initial_page"
| add: "reachable p \<Longrightarrow> reachable (handleImageChange files p)"
| remove: "reachable p \<Longrightarrow> reachable (removeImage index p)"
| submit: "reachable p \<Longrightarrow> reachable (onSubmit be values p)"

subsection \<open>Example inputs\<close>

definition example_values :: form_values where
  "example_values =
     \<lparr>deviceType = ''Laptop'', brand = Some [], model = None,
      description = ''The screen stays black after boot.''\<rparr>"

definition working_backend :: backend where
  "working_backend =
     \<lparr>auth_getUser = Resolved (Some ''user-1''),
      insert_products = (\<lambda>row. Resolved (Data ''product-7'')),
      insert_repair_requests = (\<lambda>row. Resolved (Data ''repair-9''))\<rparr>"

definition no_user_backend :: backend where
  "no_user_backend = working_backend\<lparr>auth_getUser := Resolved None\<rparr>"

definition failing_products_backend :: backend where
  "failing_products_backend =
     working_backend\<lparr>insert_products := (\<lambda>row. Resolved (PostgrestError ''permission denied''))\<rparr>"

definition failing_repairs_backend :: backend where
  "failing_repairs_backend =
     working_backend
       \<lparr>insert_repair_requests := (\<lambda>row. Resolved (PostgrestError ''permission denied''))\<rparr>"

definition photo :: File where
  "photo = \<lparr>file_name = ''front.png'', file_type = ''image/png'', file_size = 204800\<rparr>"

definition manual :: File where
  "manual = \<lparr>file_name = ''manual.pdf'', file_type = ''application/pdf'', file_size = 6291456\<rparr>"

definition large_photo :: File where
  "large_photo = \<lparr>file_name = ''back.jpg'', file_type = ''image/jpeg'', file_size = 6291456\<rparr>"

definition small_photo :: File where
  "small_photo = \<lparr>file_name = ''label.jpg'', file_type = ''image/jpeg'', file_size = 5242880\<rparr>"

definition floppy :: File where
  "floppy =
     \<lparr>file_name = ''floppy.img'', file_type = ''application/x-raw-disk-image'',
      file_size = 1474560\<rparr>"

definition page_with_photos :: page where
  "page_with_photos =
     handleImageChange (Some [photo, manual, large_photo, small_photo]) initial_page"

definition closed_after_registration :: modal where
  "closed_after_registration =
     rerender \<lparr>isOpen = False, type = Repair\<rparr>
       (handleRegisterSuccess ''a@b.c'' (mount \<lparr>isOpen = True, type = Repair\<rparr>))"

section \<open>Validator properties\<close>

text \<open>
  Claim C7. For every description string the description validator accepts exactly when
  the length of the string lies in the inclusive interval from 20 to 500; strings of
  length 19 and of length 501 are rejected.
\<close>

theorem description_accepts_iff:
  "(description_accepts s \<longleftrightarrow> 20 \<le> length s \<and> length s \<le> 500)
   \<and> \<not> description_accepts (replicate 19 c)
   \<and> \<not> description_accepts (replicate 501 c)
   \<and> description_accepts (replicate 20 c)
   \<and> description_accepts (replicate 500 c)"
  by (auto simp: description_accepts_def description_schema_def zod_string_def)

text \<open>
  Claim C8. For every device-type input string the device-type validator accepts
  exactly when the string is one of the nine enum literals, which are pairwise
  different; every other string is rejected.
\<close>

theorem deviceType_accepts_iff:
  "(deviceType_accepts s \<longleftrightarrow>
      s \<in> {''Vacuum cleaner'', ''Coffee machine'', ''TV'', ''Radio'', ''Lighting'',
           ''Fume hood'', ''Laptop'', ''Smartphone'', ''Other''})
   \<and> length deviceTypes = 9 \<and> distinct deviceTypes"
  by (auto simp: deviceType_accepts_def deviceType_schema_def zod_enum_def deviceTypes_def)

section \<open>Submission of the repair form\<close>

lemmas page_ops = show_toast_def navigate_def issue_def setItem_def

lemmas examples = example_values_def working_backend_def no_user_backend_def
  failing_products_backend_def failing_repairs_backend_def

lemma try_block_requests:
  "requests (fst (try_block be v p)) = requests p @
     (case auth_getUser be of
        Resolved (Some u) \<Rightarrow>
          (case insert_products be (new_product u v) of
             Resolved (Data pid) \<Rightarrow>
               [GetUser, InsertProduct (new_product u v),
                InsertRepairRequest (new_repair_request u pid v)]
           | _ \<Rightarrow> [GetUser, InsertProduct (new_product u v)])
      | _ \<Rightarrow> [GetUser])"
  by (simp add: try_block_def page_ops Let_def
           split: outcome.splits option.splits single_response.splits)

lemma onSubmit_requests:
  "requests (onSubmit be v p) = requests (fst (try_block be v (p\<lparr>isSubmitting := True\<rparr>)))"
  by (simp add: onSubmit_def page_ops Let_def split: prod.splits option.splits)

text \<open>The remote calls of one run, in the order in which they are issued.\<close>

lemma issued_eq:
  "issued be v p =
     (case auth_getUser be of
        Resolved (Some u) \<Rightarrow>
          (case insert_products be (new_product u v) of
             Resolved (Data pid) \<Rightarrow>
               [GetUser, InsertProduct (new_product u v),
                InsertRepairRequest (new_repair_request u pid v)]
           | _ \<Rightarrow> [GetUser, InsertProduct (new_product u v)])
      | _ \<Rightarrow> [GetUser])"
  by (simp add: issued_def onSubmit_requests try_block_requests)

text \<open>
  Claim C2. In every run of the submission, a repair-request insert is issued only
  after a product insert that answered with a generated identifier, and the row it
  inserts references that identifier. Hence when the product insert of the run does
  not answer with an identifier (it answers with an error), no repair-request insert
  is issued.
\<close>

theorem repair_insert_needs_product:
  "(\<forall>r. InsertRepairRequest r \<in> set (issued be v p) \<longrightarrow>
       (\<exists>row. issued be v p = [GetUser, InsertProduct row, InsertRepairRequest r]
              \<and> insert_products be row = Resolved (Data (r_product_id r))))
   \<and> ((\<forall>row product_id. InsertProduct row \<in> set (issued be v p) \<longrightarrow>
          insert_products be row \<noteq> Resolved (Data product_id))
        \<longrightarrow> (\<forall>r. InsertRepairRequest r \<notin> set (issued be v p)))"
  by (auto simp: issued_eq new_repair_request_def
           split: outcome.splits option.splits single_response.splits)

theorem repair_insert_needs_product_witness:
  "issued failing_products_backend example_values initial_page =
     [GetUser, InsertProduct (new_product ''user-1'' example_values)]
   \<and> insert_products failing_products_backend (new_product ''user-1'' example_values)
       = Resolved (PostgrestError ''permission denied'')
   \<and> (\<forall>r. InsertRepairRequest r \<notin> set (issued failing_products_backend example_values initial_page))
   \<and> issued working_backend example_values initial_page =
       [GetUser, InsertProduct (new_product ''user-1'' example_values),
        InsertRepairRequest (new_repair_request ''user-1'' ''product-7'' example_values)]"
  using repair_insert_needs_product [of failing_products_backend example_values initial_page]
    repair_insert_needs_product [of working_backend example_values initial_page]
  by (simp add: issued_eq examples)

text \<open>
  Claim C3. When fetching the current user yields no user, the run issues no insert
  (its only remote call is the user fetch), shows the destructive notice titled
  "Authentication required", writes nothing to the session storage, navigates nowhere,
  and ends with the submit control enabled again.
\<close>

theorem no_user_no_insert:
  assumes "auth_getUser be = Resolved None"
  shows "issued be v p = [GetUser]
         \<and> toasts (onSubmit be v p) = toasts p @ [auth_required_toast]
         \<and> toast_title auth_required_toast = ''Authentication required''
         \<and> toast_variant auth_required_toast = Some Destructive
         \<and> \<not> isSubmitting (onSubmit be v p)
         \<and> navigation (onSubmit be v p) = navigation p
         \<and> sessionStorage (onSubmit be v p) = sessionStorage p"
  using assms
  by (simp add: issued_eq onSubmit_def try_block_def page_ops auth_required_toast_def)

theorem no_user_no_insert_witness:
  "auth_getUser no_user_backend = Resolved None
   \<and> issued no_user_backend example_values initial_page = [GetUser]
   \<and> toasts (onSubmit no_user_backend example_values initial_page) = [auth_required_toast]
   \<and> \<not> isSubmitting (onSubmit no_user_backend example_values initial_page)"
proof -
  have h: "auth_getUser no_user_backend = Resolved None"
    by (simp add: examples)
  show ?thesis
    using h no_user_no_insert [OF h, of example_values initial_page]
    by (simp add: initial_page_def)
qed

text \<open>
  Claim C4. When a run issues both inserts and both answer with a generated identifier,
  the session-storage key \<open>repairRequestId\<close> holds exactly the identifier that the
  repair-request insert answered, and the run navigates to \<open>/repair-request-timeslots\<close>.
\<close>

theorem both_inserts_succeed:
  assumes "issued be v p = [GetUser, InsertProduct row, InsertRepairRequest rrow]"
    and "insert_products be row = Resolved (Data product_id)"
    and "insert_repair_requests be rrow = Resolved (Data repair_id)"
  shows "sessionStorage (onSubmit be v p) ''repairRequestId'' = Some repair_id
         \<and> navigation (onSubmit be v p) = navigation p @ [Navigate ''/repair-request-timeslots'']"
proof -
  from assms(1) obtain u pid where
    u: "auth_getUser be = Resolved (Some u)"
    and pid: "insert_products be (new_product u v) = Resolved (Data pid)"
    and rows: "row = new_product u v" "rrow = new_repair_request u pid v"
    by (auto simp: issued_eq split: outcome.splits option.splits single_response.splits)
  from pid assms(2) rows have "pid = product_id" by simp
  with u pid rows assms(3) show ?thesis
    by (simp add: onSubmit_def try_block_def page_ops Let_def)
qed

theorem both_inserts_succeed_witness:
  "issued working_backend example_values initial_page =
     [GetUser, InsertProduct (new_product ''user-1'' example_values),
      InsertRepairRequest (new_repair_request ''user-1'' ''product-7'' example_values)]
   \<and> sessionStorage (onSubmit working_backend example_values initial_page) ''repairRequestId''
       = Some ''repair-9''
   \<and> navigation (onSubmit working_backend example_values initial_page)
       = [Navigate ''/repair-request-timeslots'']"
proof -
  have 1: "issued working_backend example_values initial_page =
     [GetUser, InsertProduct (new_product ''user-1'' example_values),
      InsertRepairRequest (new_repair_request ''user-1'' ''product-7'' example_values)]"
    by (simp add: issued_eq examples)
  have 2: "insert_products working_backend (new_product ''user-1'' example_values)
             = Resolved (Data ''product-7'')"
    and 3: "insert_repair_requests working_backend
              (new_repair_request ''user-1'' ''product-7'' example_values)
             = Resolved (Data ''repair-9'')"
    by (simp_all add: examples)
  show ?thesis
    using 1 both_inserts_succeed [OF 1 2 3] by (simp add: initial_page_def)
qed

text \<open>
  Claim C6. When the product insert answers with an error, the one notification of the
  run is destructive and its description is \<open>Failed to create product: \<close> followed by the
  backend's message; when the repair-request insert answers with an error, the
  description is the fixed text \<open>Failed to create repair request\<close>, whatever the
  backend's message was.
\<close>

theorem insert_failure_messages:
  "(auth_getUser be = Resolved (Some u) \<and>
      insert_products be (new_product u v) = Resolved (PostgrestError message)
    \<longrightarrow> toasts (onSubmit be v p) = toasts p @
          [\<lparr>toast_title = ''Submission failed'',
            toast_description = ''Failed to create product: '' @ message,
            toast_variant = Some Destructive\<rparr>])
   \<and> (auth_getUser be = Resolved (Some u) \<and>
      insert_products be (new_product u v) = Resolved (Data product_id) \<and>
      insert_repair_requests be (new_repair_request u product_id v)
        = Resolved (PostgrestError message)
    \<longrightarrow> toasts (onSubmit be v p) = toasts p @
          [\<lparr>toast_title = ''Submission failed'',
            toast_description = ''Failed to create repair request'',
            toast_variant = Some Destructive\<rparr>])"
  by (simp add: onSubmit_def try_block_def page_ops Let_def submission_failed_toast_def)

theorem insert_failure_messages_witness:
  "toast_description (last (toasts (onSubmit failing_products_backend example_values initial_page)))
     = ''Failed to create product: permission denied''
   \<and> toast_description (last (toasts (onSubmit failing_repairs_backend example_values initial_page)))
     = ''Failed to create repair request''"
  using insert_failure_messages [where be = failing_products_backend and u = "''user-1''"
          and v = example_values and message = "''permission denied''" and p = initial_page]
    insert_failure_messages [where be = failing_repairs_backend and u = "''user-1''"
          and v = example_values and message = "''permission denied''" and p = initial_page
          and product_id = "''product-7''"]
  by (simp add: examples initial_page_def)

section \<open>Image attachments\<close>

text \<open>
  What the loop does with a list of offered files: the files that pass both checks are
  appended in order, each with the next fresh URL, and every other file gets its
  notification and is appended nowhere. A file whose type does not match is told
  "Invalid file type", also when it is too large; a file whose type matches and whose
  size exceeds 5 * 1024 * 1024 bytes is told "File too large".
\<close>

lemma image_loop_lists:
  "image_loop fs ims us p = (ims', us', p') \<Longrightarrow>
     ims' = ims @ filter passes_checks fs
     \<and> us' = us @ [next_url p ..< next_url p + length (filter passes_checks fs)]
     \<and> toasts p' = toasts p @ map rejection_toast (filter (\<lambda>f. \<not> passes_checks f) fs)"
proof (induction fs arbitrary: ims us p)
  case Nil
  then show ?case by simp
next
  case (Cons f fs)
  show ?case
  proof (cases "passes_checks f")
    case True
    with Cons.prems
    have "image_loop fs (ims @ [f]) (us @ [next_url p]) (snd (createObjectURL f p)) = (ims', us', p')"
      by (simp add: passes_checks_def createObjectURL_def)
    from Cons.IH [OF this] True show ?thesis
      by (simp add: createObjectURL_def upt_conv_Cons del: upt_Suc)
  next
    case False
    with Cons.prems
    have "image_loop fs ims us (show_toast (rejection_toast f) p) = (ims', us', p')"
      by (auto simp: passes_checks_def rejection_toast_def split: if_splits)
    from Cons.IH [OF this] False show ?thesis
      by (simp add: show_toast_def)
  qed
qed

lemma handleImageChange_lists:
  "images (handleImageChange (Some fs) p) = images p @ filter passes_checks fs"
  "imagePreviewUrls (handleImageChange (Some fs) p) =
     imagePreviewUrls p @ [next_url p ..< next_url p + length (filter passes_checks fs)]"
  "toasts (handleImageChange (Some fs) p) =
     toasts p @ map rejection_toast (filter (\<lambda>f. \<not> passes_checks f) fs)"
proof -
  obtain ims' us' p' where
    loop: "image_loop fs (images p) (imagePreviewUrls p) p = (ims', us', p')"
    by (cases "image_loop fs (images p) (imagePreviewUrls p) p") auto
  from image_loop_lists [OF loop]
  show "images (handleImageChange (Some fs) p) = images p @ filter passes_checks fs"
    "imagePreviewUrls (handleImageChange (Some fs) p) =
     imagePreviewUrls p @ [next_url p ..< next_url p + length (filter passes_checks fs)]"
    "toasts (handleImageChange (Some fs) p) =
     toasts p @ map rejection_toast (filter (\<lambda>f. \<not> passes_checks f) fs)"
    by (simp_all add: handleImageChange_def loop)
qed

text \<open>
  Claim C9. A file whose MIME type is not an image type is to be rejected with the
  "Invalid file type" notification and added to neither list. The type check of the
  handler looks for \<open>image\<close> anywhere in the MIME type, so it lets the type
  \<open>application/x-raw-disk-image\<close> of a floppy image pass: offered that file of
  1474560 bytes, the handler shows no notification, adds the file to the image list
  and appends a preview URL for it.
\<close>

theorem disk_image_accepted:
  "\<not> startsWith (file_type floppy) ''image/''
   \<and> images (handleImageChange (Some [floppy]) initial_page) = [floppy]
   \<and> imagePreviewUrls (handleImageChange (Some [floppy]) initial_page) = [0]
   \<and> toasts (handleImageChange (Some [floppy]) initial_page) = []"
  by (simp add: handleImageChange_def match_image_def startsWith_def createObjectURL_def
        initial_page_def floppy_def)

text \<open>The two lists stay in step through the loop and through a removal.\<close>

lemma image_loop_inv:
  assumes "image_loop fs ims us p = (ims', us', p')"
    and "list_all2 (\<lambda>u f. object_urls p u = Some f) us ims"
    and "distinct us" and "\<forall>u\<in>set us. u < next_url p"
  shows "list_all2 (\<lambda>u f. object_urls p' u = Some f) us' ims'
         \<and> distinct us' \<and> (\<forall>u\<in>set us'. u < next_url p')"
  using assms
proof (induction fs arbitrary: ims us p)
  case Nil
  then show ?case by simp
next
  case (Cons f fs)
  show ?case
  proof (cases "\<not> match_image (file_type f) \<or> file_size f > 5 * 1024 * 1024")
    case True
    then obtain t where "image_loop fs ims us (show_toast t p) = (ims', us', p')"
      using Cons.prems(1) by (auto split: if_splits)
    moreover have "object_urls (show_toast t p) = object_urls p"
      "next_url (show_toast t p) = next_url p"
      by (simp_all add: show_toast_def)
    ultimately show ?thesis
      using Cons.IH [of ims us "show_toast t p"] Cons.prems(2-4) by simp
  next
    case False
    define q where "q = snd (createObjectURL f p)"
    have q: "object_urls q = (object_urls p)(next_url p \<mapsto> f)" "next_url q = Suc (next_url p)"
      by (simp_all add: q_def createObjectURL_def)
    from False Cons.prems(1)
    have loop: "image_loop fs (ims @ [f]) (us @ [next_url p]) q = (ims', us', p')"
      by (simp add: q_def createObjectURL_def)
    have fresh: "next_url p \<notin> set us"
      using Cons.prems(4) by auto
    have "list_all2 (\<lambda>u f. object_urls q u = Some f) us ims"
      by (rule list.rel_mono_strong [OF Cons.prems(2)]) (use fresh in \<open>auto simp: q\<close>)
    then have 1: "list_all2 (\<lambda>u f. object_urls q u = Some f) (us @ [next_url p]) (ims @ [f])"
      by (simp add: list_all2_appendI q)
    have 2: "distinct (us @ [next_url p])"
      using Cons.prems(3) fresh by simp
    have 3: "\<forall>u\<in>set (us @ [next_url p]). u < next_url q"
      using Cons.prems(4) by (auto simp: q less_Suc_eq)
    show ?thesis
      using Cons.IH [OF loop 1 2 3] .
  qed
qed

lemma handleImageChange_inv:
  assumes "previews_match p" "previews_fresh p"
  shows "previews_match (handleImageChange files p) \<and> previews_fresh (handleImageChange files p)"
proof (cases files)
  case None
  then show ?thesis using assms by (simp add: handleImageChange_def)
next
  case (Some fs)
  obtain ims' us' p' where
    loop: "image_loop fs (images p) (imagePreviewUrls p) p = (ims', us', p')"
    by (cases "image_loop fs (images p) (imagePreviewUrls p) p") auto
  have res: "handleImageChange files p = p'\<lparr>images := ims', imagePreviewUrls := us'\<rparr>"
    by (simp add: handleImageChange_def Some loop)
  from image_loop_inv [OF loop] assms
  show ?thesis
    by (simp add: res previews_match_def previews_fresh_def list_all_iff)
qed

lemma splice1_nth:
  "i < length xs \<Longrightarrow> splice1 (int i) xs = take i xs @ drop (Suc i) xs"
  by (simp add: splice1_def Let_def min_def)

lemma nth_not_in_rest:
  assumes "distinct xs" "i < length xs"
  shows "xs ! i \<notin> set (take i xs) \<union> set (drop (Suc i) xs)"
proof -
  have "xs = take i xs @ xs ! i # drop (Suc i) xs"
    using assms(2) by (rule id_take_nth_drop)
  then have "distinct (take i xs @ xs ! i # drop (Suc i) xs)"
    using assms(1) by simp
  then show ?thesis by auto
qed

lemma removeImage_inv:
  assumes "previews_match p" "previews_fresh p"
  shows "previews_match (removeImage index p) \<and> previews_fresh (removeImage index p)"
proof -
  let ?us = "imagePreviewUrls p" and ?ims = "images p"
  have len: "length ?us = length ?ims"
    using assms(1) by (simp add: previews_match_def list_all2_lengthD)
  define k where
    "k = nat (if index < 0 then max (int (length ?ims) + index) 0 else min index (int (length ?ims)))"
  have us': "splice1 index ?us = take k ?us @ drop (Suc k) ?us"
    and ims': "splice1 index ?ims = take k ?ims @ drop (Suc k) ?ims"
    by (simp_all add: splice1_def Let_def k_def len)
  define q where "q = revokeObjectURL (at_index ?us index) p"
  have res: "removeImage index p = q\<lparr>images := splice1 index ?ims, imagePreviewUrls := splice1 index ?us\<rparr>"
    by (simp add: removeImage_def q_def Let_def)
  have nq: "next_url q = next_url p"
    by (simp add: q_def revokeObjectURL_def split: option.splits)
  have keep: "object_urls q u = object_urls p u" if "u \<in> set (take k ?us) \<union> set (drop (Suc k) ?us)" for u
  proof (cases "0 \<le> index \<and> index < int (length ?us)")
    case False
    then show ?thesis by (auto simp: q_def revokeObjectURL_def at_index_def)
  next
    case True
    then have k: "k = nat index" "nat index < length ?us"
      by (auto simp: k_def len)
    from nth_not_in_rest [OF _ k(2)] assms(2) that
    have "u \<noteq> ?us ! nat index"
      by (auto simp: previews_fresh_def k)
    with True show ?thesis
      by (simp add: q_def revokeObjectURL_def at_index_def)
  qed
  have all: "list_all2 (\<lambda>u f. object_urls p u = Some f) (take k ?us @ drop (Suc k) ?us)
               (take k ?ims @ drop (Suc k) ?ims)"
    using assms(1)
    by (auto simp: previews_match_def intro!: list_all2_appendI list_all2_takeI list_all2_dropI)
  have "list_all2 (\<lambda>u f. object_urls q u = Some f) (take k ?us @ drop (Suc k) ?us)
               (take k ?ims @ drop (Suc k) ?ims)"
    by (rule list.rel_mono_strong [OF all]) (simp add: keep)
  moreover have "distinct (take k ?us @ drop (Suc k) ?us)"
    using assms(2) 
    by (auto simp: previews_fresh_def set_take_disj_set_drop_if_distinct)
  moreover have "\<forall>u \<in> set (take k ?us @ drop (Suc k) ?us). u < next_url p"
    using assms(2) by (auto simp: previews_fresh_def list_all_iff dest: in_set_takeD in_set_dropD)
  ultimately show ?thesis
    by (simp add: res previews_match_def previews_fresh_def us' ims' nq list_all_iff)
qed

lemma onSubmit_images:
  "images (onSubmit be v p) = images p" "imagePreviewUrls (onSubmit be v p) = imagePreviewUrls p"
  "object_urls (onSubmit be v p) = object_urls p" "next_url (onSubmit be v p) = next_url p"
  by (simp_all add: onSubmit_def try_block_def show_toast_def navigate_def issue_def setItem_def
        Let_def split: outcome.splits option.splits single_response.splits)

lemma reachable_inv:
  "reachable p \<Longrightarrow> previews_match p \<and> previews_fresh p"
proof (induction rule: reachable.induct)
  case start
  show ?case by (simp add: previews_match_def previews_fresh_def initial_page_def)
next
  case (add p files)
  then show ?case using handleImageChange_inv by blast
next
  case (remove p index)
  then show ?case using removeImage_inv by blast
next
  case (submit p be "values")
  then show ?case by (simp add: previews_match_def previews_fresh_def onSubmit_images)
qed

lemma page_with_photos_eq:
  "images page_with_photos = [photo, small_photo]"
  "imagePreviewUrls page_with_photos = [0, 1]"
  "toasts page_with_photos = [invalid_type_toast, too_large_toast]"
  "object_urls page_with_photos = [0 \<mapsto> photo, 1 \<mapsto> small_photo]"
  by (simp_all add: page_with_photos_def handleImageChange_def match_image_def startsWith_def
        createObjectURL_def initial_page_def show_toast_def
        photo_def manual_def large_photo_def small_photo_def)

text \<open>
  Claim C10. On every page that the handlers produce, so after every addition and every
  removal of images, the image list and the preview-URL list have the same length and
  the URL at each index is the object URL registered for the image at that index.
  Removing at an index of the list deletes exactly the element at that index from both
  lists and revokes the preview URL that stood there, and no other.
\<close>

theorem previews_track_images:
  assumes "reachable p"
  shows "length (imagePreviewUrls p) = length (images p)
     \<and> (\<forall>i<length (images p). object_urls p (imagePreviewUrls p ! i) = Some (images p ! i))
     \<and> (\<forall>i<length (images p).
          images (removeImage (int i) p) = take i (images p) @ drop (Suc i) (images p)
          \<and> imagePreviewUrls (removeImage (int i) p)
              = take i (imagePreviewUrls p) @ drop (Suc i) (imagePreviewUrls p)
          \<and> object_urls (removeImage (int i) p)
              = (object_urls p)(imagePreviewUrls p ! i := None))"
proof -
  from reachable_inv [OF assms]
  have m: "list_all2 (\<lambda>u f. object_urls p u = Some f) (imagePreviewUrls p) (images p)"
    by (simp add: previews_match_def)
  then have len: "length (imagePreviewUrls p) = length (images p)"
    by (rule list_all2_lengthD)
  have nth: "\<forall>i<length (images p). object_urls p (imagePreviewUrls p ! i) = Some (images p ! i)"
    using m by (simp add: list_all2_conv_all_nth)
  have rem: "\<forall>i<length (images p).
          images (removeImage (int i) p) = take i (images p) @ drop (Suc i) (images p)
          \<and> imagePreviewUrls (removeImage (int i) p)
              = take i (imagePreviewUrls p) @ drop (Suc i) (imagePreviewUrls p)
          \<and> object_urls (removeImage (int i) p)
              = (object_urls p)(imagePreviewUrls p ! i := None)"
    by (simp add: removeImage_def Let_def splice1_nth len at_index_def revokeObjectURL_def)
  from len nth rem show ?thesis by blast
qed

theorem previews_track_images_witness:
  "reachable page_with_photos
   \<and> images page_with_photos = [photo, small_photo]
   \<and> imagePreviewUrls page_with_photos = [0, 1]
   \<and> object_urls page_with_photos 0 = Some photo
   \<and> object_urls page_with_photos 1 = Some small_photo
   \<and> images (removeImage 0 page_with_photos) = [small_photo]
   \<and> imagePreviewUrls (removeImage 0 page_with_photos) = [1]
   \<and> object_urls (removeImage 0 page_with_photos) 0 = None
   \<and> object_urls (removeImage 0 page_with_photos) 1 = Some small_photo"
proof -
  have r: "reachable page_with_photos"
    unfolding page_with_photos_def by (rule reachable.add [OF reachable.start])
  have "0 < length (images page_with_photos)"
    by (simp add: page_with_photos_eq)
  with previews_track_images [OF r]
  have "images (removeImage (int 0) page_with_photos)
          = take 0 (images page_with_photos) @ drop (Suc 0) (images page_with_photos)
        \<and> imagePreviewUrls (removeImage (int 0) page_with_photos)
          = take 0 (imagePreviewUrls page_with_photos) @ drop (Suc 0) (imagePreviewUrls page_with_photos)
        \<and> object_urls (removeImage (int 0) page_with_photos)
          = (object_urls page_with_photos)(imagePreviewUrls page_with_photos ! 0 := None)"
    by blast
  with r show ?thesis
    by (simp add: page_with_photos_eq)
qed

section \<open>The authentication modal\<close>

text \<open>
  Claim C5. The step controller starts in \<open>login\<close> for the type \<open>login\<close> and in \<open>register\<close>
  for the types \<open>repair\<close> and \<open>help\<close>; and whenever a modal that was closed at its last
  render is rendered open, its step becomes the initial step of its type, whatever the
  step was before.
\<close>

theorem modal_step_reset_on_open:
  "initial_step Login = StepLogin
   \<and> initial_step Repair = StepRegister
   \<and> initial_step Help = StepRegister
   \<and> step (mount pr) = initial_step (type pr)
   \<and> (\<not> fst (effect_deps m) \<longrightarrow>
        step (rerender \<lparr>isOpen = True, type = t\<rparr> m) = initial_step t)"
  by (cases "effect_deps m") (auto simp: initial_step_def mount_def rerender_def reset_effect_def)

theorem modal_step_reset_on_open_witness:
  "\<not> fst (effect_deps closed_after_registration)
   \<and> step closed_after_registration = StepVerify
   \<and> step (rerender \<lparr>isOpen = True, type = Repair\<rparr> closed_after_registration) = StepRegister
   \<and> step (rerender \<lparr>isOpen = True, type = Login\<rparr> closed_after_registration) = StepLogin"
  using modal_step_reset_on_open [of "\<lparr>isOpen = True, type = Repair\<rparr>" closed_after_registration Repair]
    modal_step_reset_on_open [of "\<lparr>isOpen = True, type = Repair\<rparr>" closed_after_registration Login]
  by (simp add: closed_after_registration_def rerender_def reset_effect_def mount_def
        handleRegisterSuccess_def show_toast_def initial_step_def)

text \<open>
  The redirect decision of the two success handlers, for a path of the router (which
  begins with a slash): no navigation on a path longer than the root that does not
  contain \<open>/dashboard\<close>; otherwise the new-repair-request route for the type \<open>repair\<close>
  and the repair-requests route for the type \<open>help\<close>.
\<close>

lemma redirect_navigation:
  assumes "startsWith currentPath ''/''"
  shows "navigation (redirect currentPath t m) = navigation m @
     (if length currentPath > 1 \<and> \<not> includes_str currentPath ''/dashboard'' then []
      else if t = Repair then [LocationHref ''/new-repair-request'']
      else if t = Help then [LocationHref ''/repair-requests'']
      else [])"
  using assms by (simp add: redirect_def set_location_href_def)

lemma redirect_table:
  "navigation (redirect ''/device/42'' Repair m) = navigation m"
  "navigation (redirect ''/'' Repair m) = navigation m @ [LocationHref ''/new-repair-request'']"
  "navigation (redirect ''/dashboard'' Help m) = navigation m @ [LocationHref ''/repair-requests'']"
  by (simp_all add: redirect_def set_location_href_def startsWith_def)

lemma verification_on_device_page_stays:
  "navigation (handleVerificationSuccess HasSession ''/device/42'' Repair m) = navigation m"
  by (simp add: handleVerificationSuccess_def redirect_table show_toast_def onClose_def)

text \<open>
  Claim C1. After a successful login on the path \<open>/device/42\<close> with the purpose \<open>repair\<close>
  no navigation is to occur: the success handler of the modal returns there without
  navigating. The login form, however, calls \<open>navigate("/dashboard")\<close> after every
  successful sign-in, right after it has called the handler, so the login as a whole
  navigates to the dashboard.
\<close>

theorem login_on_device_page_navigates:
  "navigation (login (Resolved SignedIn) HasSession ''/device/42'' Repair
                 (handleLoginClick (mount \<lparr>isOpen = True, type = Repair\<rparr>)))
   = [Navigate ''/dashboard'']"
  by (simp add: login_def LoginForm_onSubmit_def handleLoginSuccess_def redirect_def
        handleLoginClick_def mount_def reset_effect_def show_toast_def navigate_def onClose_def
        startsWith_def Let_def)

end
